theory Spec2Isabelle
  imports Main "HOL-Library.Sublist"
begin

section \<open>Python strings\<close>

text \<open>
  A Python \<open>str\<close> is a sequence of Unicode code points, so it is modelled as a list of
  natural numbers; \<open>u ''...''\<close> writes a literal. Only the operations the program uses
  are modelled: \<open>in\<close>, \<open>replace\<close>, \<open>splitlines\<close>, \<open>split\<close>, \<open>strip\<close>, \<open>startswith\<close> and
  \<open>join\<close>.
\<close>

type_synonym pystr = "nat list"

abbreviation u :: "string \<Rightarrow> pystr" where
  "u s \<equiv> map of_char s"

text \<open>\<open>sub in s\<close>: \<open>sub\<close> occurs in \<open>s\<close> as a contiguous substring.\<close>

fun contains :: "pystr \<Rightarrow> pystr \<Rightarrow> bool" where
  "contains sub [] = (sub = [])"
| "contains sub (c # cs) = (prefix sub (c # cs) \<or> contains sub cs)"

text \<open>
  \<open>s.replace(old, new)\<close>: every occurrence of \<open>old\<close>, found from left to right without
  overlap, is replaced. With an empty \<open>old\<close> Python inserts \<open>new\<close> before every character
  and at the end.
\<close>

function str_replace :: "pystr \<Rightarrow> pystr \<Rightarrow> pystr \<Rightarrow> pystr" where
  "str_replace old new [] = (if old = [] then new else [])"
| "str_replace old new (c # cs) =
     (if old = [] then new @ c # str_replace old new cs
      else if prefix old (c # cs)
        then new @ str_replace old new (drop (length old) (c # cs))
      else c # str_replace old new cs)"
  by pat_completeness auto
termination
  by (relation "measure (\<lambda>(old, new, s). length s)") auto

text \<open>
  The line boundaries of \<open>str.splitlines\<close>: LF, VT, FF, CR, FS, GS, RS, NEL, LINE
  SEPARATOR and PARAGRAPH SEPARATOR; CR LF counts as one boundary.
\<close>

definition is_linebreak :: "nat \<Rightarrow> bool" where
  "is_linebreak c = (c \<in> {10, 11, 12, 13, 28, 29, 30, 133, 8232, 8233})"

text \<open>
  \<open>splitlines_from cur s\<close> is the scan of \<open>str.splitlines\<close> with \<open>cur\<close> the part of the
  current line already read: a boundary closes the line, and at the end of the text a
  line is produced only when characters are left over, so a final boundary adds no
  empty line.
\<close>

fun splitlines_from :: "pystr \<Rightarrow> pystr \<Rightarrow> pystr list" where
  "splitlines_from cur [] = (if cur = [] then [] else [cur])"
| "splitlines_from cur [c] = (if is_linebreak c then [cur] else [cur @ [c]])"
| "splitlines_from cur (c # d # ds) =
     (if c = 13 \<and> d = 10 then cur # splitlines_from [] ds
      else if is_linebreak c then cur # splitlines_from [] (d # ds)
      else splitlines_from (cur @ [c]) (d # ds))"

definition splitlines :: "pystr \<Rightarrow> pystr list" where
  "splitlines s = splitlines_from [] s"

text \<open>\<open>s.split(sep)\<close> for a separator of one character: never an empty result.\<close>

fun split_on :: "nat \<Rightarrow> pystr \<Rightarrow> pystr list" where
  "split_on sep [] = [[]]"
| "split_on sep (c # cs) =
     (if c = sep then [] # split_on sep cs
      else (case split_on sep cs of
              [] \<Rightarrow> [[c]]
            | l # ls \<Rightarrow> (c # l) # ls))"

text \<open>The characters \<open>str.isspace\<close> accepts, which \<open>str.strip()\<close> removes at both ends.\<close>

definition is_space :: "nat \<Rightarrow> bool" where
  "is_space c = ((9 \<le> c \<and> c \<le> 13) \<or> (28 \<le> c \<and> c \<le> 32) \<or> c = 133 \<or> c = 160
      \<or> c = 5760 \<or> (8192 \<le> c \<and> c \<le> 8202) \<or> c = 8232 \<or> c = 8233
      \<or> c = 8239 \<or> c = 8287 \<or> c = 12288)"

definition strip :: "pystr \<Rightarrow> pystr" where
  "strip s = rev (dropWhile is_space (rev (dropWhile is_space s)))"

definition startswith :: "pystr \<Rightarrow> pystr \<Rightarrow> bool" where
  "startswith s p = prefix p s"

text \<open>\<open>sep.join(xs)\<close>.\<close>

fun join :: "pystr \<Rightarrow> pystr list \<Rightarrow> pystr" where
  "join sep [] = []"
| "join sep [x] = x"
| "join sep (x # y # ys) = x @ sep @ join sep (y # ys)"

section \<open>Exceptions and files\<close>

text \<open>
  An exception is a value. \<open>TypeError\<close> is kept apart because the heartbeat service
  catches it by name; \<open>Error\<close> stands for every other subclass of \<open>Exception\<close>
  (\<open>OSError\<close>, \<open>UnicodeDecodeError\<close>, \<open>RuntimeError\<close>, ...); both carry the text of
  \<open>str(e)\<close>. \<open>CancelledError\<close> derives from \<open>BaseException\<close> only, so
  \<open>except Exception\<close> lets it through.
\<close>

datatype exn = TypeError pystr | Error pystr | CancelledError

fun is_Exception :: "exn \<Rightarrow> bool" where
  "is_Exception (TypeError m) = True"
| "is_Exception (Error m) = True"
| "is_Exception CancelledError = False"

fun str_of :: "exn \<Rightarrow> pystr" where
  "str_of (TypeError m) = m"
| "str_of (Error m) = m"
| "str_of CancelledError = []"

text \<open>
  One file of the workspace is its stored text, or \<open>None\<close> when the path does not
  exist. The operations on it can fail: \<open>faults op = Some m\<close> makes the
  operation \<open>op\<close> raise an \<open>OSError\<close> whose text is \<open>m\<close>, before it changes anything.
\<close>

datatype io_op = Exists | ReadText | WriteText | Append

type_synonym faults = "io_op \<Rightarrow> pystr option"

definition no_faults :: faults where
  "no_faults = (\<lambda>op. None)"

text \<open>
  Text mode reads with universal newlines: CR LF and a lone CR arrive as LF. Writing
  leaves LF as it is (the line separator of a POSIX system).
\<close>

fun universal_newlines :: "pystr \<Rightarrow> pystr" where
  "universal_newlines [] = []"
| "universal_newlines [c] = (if c = 13 then [10] else [c])"
| "universal_newlines (c # d # ds) =
     (if c = 13 \<and> d = 10 then 10 # universal_newlines ds
      else if c = 13 then 10 # universal_newlines (d # ds)
      else c # universal_newlines (d # ds))"

definition path_exists :: "faults \<Rightarrow> pystr option \<Rightarrow> exn + bool" where
  "path_exists flt f =
     (case flt Exists of Some m \<Rightarrow> Inl (Error m) | None \<Rightarrow> Inr (f \<noteq> None))"

definition read_text :: "faults \<Rightarrow> pystr option \<Rightarrow> exn + pystr" where
  "read_text flt f =
     (case flt ReadText of
        Some m \<Rightarrow> Inl (Error m)
      | None \<Rightarrow>
          (case f of
             None \<Rightarrow> Inl (Error (u ''[Errno 2] No such file or directory''))
           | Some c \<Rightarrow> Inr (universal_newlines c)))"

text \<open>
  \<open>Path.write_text(data, encoding="utf-8")\<close>. The program calls it with the constant
  header and with text it has just read from the same file, in which it has replaced
  \<open>- [ ]\<close> by \<open>- [x]\<close>: text that the codec has decoded holds no surrogate, so the
  encoding of \<open>data\<close> does not fail there.
\<close>

definition write_text :: "faults \<Rightarrow> pystr \<Rightarrow> pystr option \<Rightarrow> exn + pystr option" where
  "write_text flt c f =
     (case flt WriteText of Some m \<Rightarrow> Inl (Error m) | None \<Rightarrow> Inr (Some c))"

text \<open>
  The files are opened with \<open>encoding="utf-8"\<close>. The UTF-8 codec refuses the surrogate
  code points U+D800 to U+DFFF: writing a text that holds one raises
  \<open>UnicodeEncodeError\<close>, whose \<open>str\<close> names the first run of surrogates: the character
  (as a \<open>u\<close> escape of four hexadecimal digits) and its position for a run of one, the
  first and the last position for a longer run.
\<close>

function decimal :: "nat \<Rightarrow> pystr" where
  "decimal n = (if n < 10 then [48 + n] else decimal (n div 10) @ [48 + n mod 10])"
  by pat_completeness auto
termination
  by (relation "measure id") auto

declare decimal.simps [simp del]

definition hex_digit :: "nat \<Rightarrow> nat" where
  "hex_digit d = (if d < 10 then 48 + d else 87 + d)"

definition hex4 :: "nat \<Rightarrow> pystr" where
  "hex4 c = [hex_digit (c div 4096 mod 16), hex_digit (c div 256 mod 16),
             hex_digit (c div 16 mod 16), hex_digit (c mod 16)]"

definition is_surrogate :: "nat \<Rightarrow> bool" where
  "is_surrogate c = (55296 \<le> c \<and> c \<le> 57343)"

text \<open>\<open>None\<close> when the text can be encoded, the text of the error otherwise.\<close>

definition utf8_encode_error :: "pystr \<Rightarrow> pystr option" where
  "utf8_encode_error s =
     (case dropWhile (\<lambda>c. \<not> is_surrogate c) s of
        [] \<Rightarrow> None
      | c # rest \<Rightarrow>
          (let start = length (takeWhile (\<lambda>c. \<not> is_surrogate c) s);
               more = length (takeWhile is_surrogate rest)
           in Some ([39] @ u ''utf-8'' @ [39] @ u '' codec can'' @ [39]
                    @ (if more = 0
                       then u ''t encode character '' @ [39, 92] @ u ''u'' @ hex4 c @ [39]
                            @ u '' in position '' @ decimal start
                       else u ''t encode characters in position '' @ decimal start
                            @ u ''-'' @ decimal (start + more))
                    @ u '': surrogates not allowed'')))"

text \<open>
  \<open>open(path, "a", encoding="utf-8")\<close> followed by one \<open>write\<close>. Opening creates the file
  when it is absent; the text is encoded as a whole before any of it is written, so a
  text that cannot be encoded leaves the content of the file as it was.
\<close>

definition append_text ::
  "faults \<Rightarrow> pystr \<Rightarrow> pystr option \<Rightarrow> (exn + unit) \<times> pystr option" where
  "append_text flt c f =
     (case flt Append of
        Some m \<Rightarrow> (Inl (Error m), f)
      | None \<Rightarrow>
          (let opened = (case f of None \<Rightarrow> [] | Some old \<Rightarrow> old) in
           case utf8_encode_error c of
             Some m \<Rightarrow> (Inl (Error m), Some opened)
           | None \<Rightarrow> (Inr (), Some (opened @ c))))"

text \<open>
  \<open>try: ... except Exception as e: return prefix + str(e)\<close> around a body that ends
  with a result and the state of the file.
\<close>

definition except_Exception ::
  "pystr \<Rightarrow> (exn + pystr) \<times> pystr option \<Rightarrow> (exn + pystr) \<times> pystr option" where
  "except_Exception msg r =
     (case r of
        (Inr s, f) \<Rightarrow> (Inr s, f)
      | (Inl e, f) \<Rightarrow> (if is_Exception e then Inr (msg @ str_of e) else Inl e, f))"

section \<open>The todo tools (agent/tools/todo.py)\<close>

definition pending_marker :: pystr where
  "pending_marker = u ''- [ ]''"

definition done_marker :: pystr where
  "done_marker = u ''- [x]''"

abbreviation nl :: pystr where
  "nl \<equiv> [10]"

abbreviation quote :: pystr where
  "quote \<equiv> [39]"

subsection \<open>TodoAddTaskTool.execute\<close>

definition task_line :: "pystr \<Rightarrow> pystr \<Rightarrow> pystr" where
  "task_line priority task = u ''- [ ] ['' @ priority @ u ''] '' @ task"

definition add_task_body ::
  "faults \<Rightarrow> pystr \<Rightarrow> pystr \<Rightarrow> pystr option \<Rightarrow> (exn + pystr) \<times> pystr option" where
  "add_task_body flt task priority f =
     (case path_exists flt f of
        Inl e \<Rightarrow> (Inl e, f)
      | Inr ex \<Rightarrow>
          (case (if \<not> ex then write_text flt (u ''# TODO'' @ nl @ nl) f else Inr f) of
             Inl e \<Rightarrow> (Inl e, f)
           | Inr f1 \<Rightarrow>
               (case append_text flt (task_line priority task @ nl) f1 of
                  (Inl e, f2) \<Rightarrow> (Inl e, f2)
                | (Inr x, f2) \<Rightarrow>
                    (Inr (u ''Task added: '' @ quote @ task @ quote
                          @ u '' with priority '' @ priority), f2))))"

definition add_task_execute ::
  "faults \<Rightarrow> pystr \<Rightarrow> pystr \<Rightarrow> pystr option \<Rightarrow> (exn + pystr) \<times> pystr option" where
  "add_task_execute flt task priority f =
     except_Exception (u ''Error adding task: '') (add_task_body flt task priority f)"

subsection \<open>TodoListTasksTool.execute\<close>

definition list_tasks_body ::
  "faults \<Rightarrow> bool \<Rightarrow> pystr option \<Rightarrow> (exn + pystr) \<times> pystr option" where
  "list_tasks_body flt only_pending f =
     (case path_exists flt f of
        Inl e \<Rightarrow> (Inl e, f)
      | Inr ex \<Rightarrow>
          if \<not> ex then (Inr (u ''No TODO.md file found. No tasks to list.''), f)
          else
            (case read_text flt f of
               Inl e \<Rightarrow> (Inl e, f)
             | Inr content \<Rightarrow>
                 (let lines = splitlines content in
                  if only_pending then
                    (let pending_lines = filter (contains pending_marker) lines in
                     if pending_lines = [] then (Inr (u ''No pending tasks found.''), f)
                     else (Inr (u ''Pending tasks:'' @ nl @ join nl pending_lines), f))
                  else
                    (if lines = [] then (Inr (u ''TODO.md is empty.''), f)
                     else (Inr (u ''All tasks:'' @ nl @ join nl lines), f)))))"

definition list_tasks_execute ::
  "faults \<Rightarrow> bool \<Rightarrow> pystr option \<Rightarrow> (exn + pystr) \<times> pystr option" where
  "list_tasks_execute flt only_pending f =
     except_Exception (u ''Error listing tasks: '') (list_tasks_body flt only_pending f)"

subsection \<open>TodoCompleteTaskTool.execute\<close>

text \<open>
  The \<open>for\<close> loop with its \<open>break\<close>: the first line that contains both \<open>task_content\<close>
  and \<open>- [ ]\<close> is replaced and the scan stops; \<open>None\<close> is \<open>found = False\<close>.
\<close>

fun complete_scan :: "pystr \<Rightarrow> pystr list \<Rightarrow> pystr list option" where
  "complete_scan task_content [] = None"
| "complete_scan task_content (line # rest) =
     (if contains task_content line \<and> contains pending_marker line
        then Some (str_replace pending_marker done_marker line # rest)
      else map_option ((#) line) (complete_scan task_content rest))"

definition complete_task_body ::
  "faults \<Rightarrow> pystr \<Rightarrow> pystr option \<Rightarrow> (exn + pystr) \<times> pystr option" where
  "complete_task_body flt task_content f =
     (case path_exists flt f of
        Inl e \<Rightarrow> (Inl e, f)
      | Inr ex \<Rightarrow>
          if \<not> ex then (Inr (u ''Error: TODO.md file not found.''), f)
          else
            (case read_text flt f of
               Inl e \<Rightarrow> (Inl e, f)
             | Inr content \<Rightarrow>
                 (case complete_scan task_content (splitlines content) of
                    None \<Rightarrow>
                      (Inr (u ''Error: Task containing '' @ quote @ task_content @ quote
                            @ u '' not found in TODO.md''), f)
                  | Some lines \<Rightarrow>
                      (case write_text flt (join nl lines) f of
                         Inl e \<Rightarrow> (Inl e, f)
                       | Inr f1 \<Rightarrow>
                           (Inr (u ''Task marked as completed: '' @ quote @ task_content
                                 @ quote), f1)))))"

definition complete_task_execute ::
  "faults \<Rightarrow> pystr \<Rightarrow> pystr option \<Rightarrow> (exn + pystr) \<times> pystr option" where
  "complete_task_execute flt task_content f =
     except_Exception (u ''Error completing task: '') (complete_task_body flt task_content f)"

section \<open>The heartbeat service (heartbeat/service.py)\<close>

definition HEARTBEAT_PROMPT :: pystr where
  "HEARTBEAT_PROMPT =
     u ''Read HEARTBEAT.md in your workspace (if it exists).'' @ nl
     @ u ''Follow any instructions or tasks listed there.'' @ nl
     @ u ''If nothing needs attention, reply with just: HEARTBEAT_OK''"

subsection \<open>The test for an empty HEARTBEAT.md\<close>

definition skip_patterns :: "pystr set" where
  "skip_patterns = {u ''- [ ]'', u ''* [ ]'', u ''- [x]'', u ''* [x]''}"

text \<open>
  The loop over \<open>content.split("\n")\<close>: a line to skip goes on to the next line, any
  other line returns \<open>False\<close> at once, and the end of the lines returns \<open>True\<close>.
\<close>

fun heartbeat_scan :: "pystr list \<Rightarrow> bool" where
  "heartbeat_scan [] = True"
| "heartbeat_scan (l # ls) =
     (let line = strip l in
      if line = [] \<or> startswith line (u ''#'') \<or> startswith line (u ''<!--'')
         \<or> line \<in> skip_patterns
        then heartbeat_scan ls
      else False)"

definition is_heartbeat_empty :: "pystr option \<Rightarrow> bool" where
  "is_heartbeat_empty content =
     (case content of
        None \<Rightarrow> True
      | Some c \<Rightarrow> if c = [] then True else heartbeat_scan (split_on 10 c))"

subsection \<open>The service, its callback and its workspace\<close>

text \<open>
  The callback \<open>on_heartbeat\<close> is called with the prompt alone or with the prompt, a
  channel and a chat id. It belongs to the owner of the service: it is any function of
  the call and of the state \<open>'w\<close> of the outside world, and it returns a reply or raises.
  A callback that does not accept the number of arguments raises \<open>TypeError\<close>.
\<close>

datatype call = Call1 pystr | Call3 pystr pystr pystr

type_synonym 'w callback = "call \<Rightarrow> 'w \<Rightarrow> (exn + pystr) \<times> 'w"

record 'w service =
  on_heartbeat :: "'w callback option"
  interval_s :: nat
  enabled :: bool
  proactive_enabled :: bool
  proactive_channel :: pystr
  proactive_chat_id :: pystr
  running :: bool
  timer_task :: "nat option"

text \<open>The two files the service reads, each with the faults of its operations.\<close>

record workspace =
  todo_file :: "pystr option"
  todo_faults :: faults
  heartbeat_file :: "pystr option"
  heartbeat_faults :: faults

text \<open>
  The calls of the logger, in the order they are made. \<open>Replied\<close> stands for the two
  messages that follow a reply of step 2 (the source picks one by looking for the
  sentinel in the reply; the choice changes nothing else).
\<close>

datatype log_entry =
    HeartbeatDisabled
  | HeartbeatStarted nat
  | ProactivePending
  | ProactiveCompleted pystr
  | ProactiveCompletedLegacy pystr
  | NoTasks
  | CheckingForTasks
  | Replied pystr
  | ExecutionFailed pystr
  | HeartbeatError pystr

text \<open>\<open>response[:100] if response else 'no response'\<close>.\<close>

definition summary :: "pystr \<Rightarrow> pystr" where
  "summary response = (if response \<noteq> [] then take 100 response else u ''no response'')"

definition read_heartbeat_file :: "workspace \<Rightarrow> exn + pystr option" where
  "read_heartbeat_file ws =
     (case path_exists (heartbeat_faults ws) (heartbeat_file ws) of
        Inl e \<Rightarrow> Inl e
      | Inr ex \<Rightarrow>
          if ex then
            (case read_text (heartbeat_faults ws) (heartbeat_file ws) of
               Inl e \<Rightarrow> if is_Exception e then Inr None else Inl e
             | Inr c \<Rightarrow> Inr (Some c))
          else Inr None)"

subsection \<open>One tick\<close>

definition proactive_prompt :: "pystr \<Rightarrow> pystr" where
  "proactive_prompt content =
     u ''SYSTEM_WAKEUP: Pending tasks detected in TODO.md:'' @ nl @ nl @ content @ nl @ nl
     @ u ''Instruction: Check these tasks. If action is required, execute it. ''
     @ u ''If a task is completed, use '' @ quote @ u ''complete_task'' @ quote
     @ u '' tool to mark it [x].''"

text \<open>
  The call of the callback in step 1: three arguments first, and the prompt alone when
  that raises \<open>TypeError\<close>. Nothing else is caught here.
\<close>

definition proactive_call ::
  "'w callback \<Rightarrow> pystr \<Rightarrow> pystr \<Rightarrow> pystr \<Rightarrow> 'w \<times> log_entry list
     \<Rightarrow> (exn + unit) \<times> 'w \<times> log_entry list" where
  "proactive_call cb prompt channel chat_id st =
     (case st of (w, lg) \<Rightarrow>
        (case cb (Call3 prompt channel chat_id) w of
           (Inr response, w1) \<Rightarrow> (Inr (), w1, lg @ [ProactiveCompleted (summary response)])
         | (Inl (TypeError m), w1) \<Rightarrow>
             (case cb (Call1 prompt) w1 of
                (Inr response, w2) \<Rightarrow>
                  (Inr (), w2, lg @ [ProactiveCompletedLegacy (summary response)])
              | (Inl e, w2) \<Rightarrow> (Inl e, w2, lg))
         | (Inl e, w1) \<Rightarrow> (Inl e, w1, lg)))"

text \<open>Step 1 of the tick: the scan of TODO.md that wakes the agent.\<close>

definition proactive_check ::
  "'w service \<Rightarrow> workspace \<Rightarrow> 'w \<times> log_entry list \<Rightarrow> (exn + unit) \<times> 'w \<times> log_entry list" where
  "proactive_check svc ws st =
     (case path_exists (todo_faults ws) (todo_file ws) of
        Inl e \<Rightarrow> (Inl e, st)
      | Inr ex \<Rightarrow>
          if ex then
            (let content = (case read_text (todo_faults ws) (todo_file ws) of
                              Inl e \<Rightarrow> []
                            | Inr c \<Rightarrow> c) in
             if contains pending_marker content then
               (case on_heartbeat svc of
                  None \<Rightarrow> (Inr (), st)
                | Some cb \<Rightarrow>
                    if proactive_enabled svc \<and> proactive_chat_id svc \<noteq> [] then
                      proactive_call cb (proactive_prompt content) (proactive_channel svc)
                        (proactive_chat_id svc) (fst st, snd st @ [ProactivePending])
                    else (Inr (), st))
             else (Inr (), st))
          else (Inr (), st))"

text \<open>Step 2 of the tick: HEARTBEAT.md and the callback with the fixed prompt.\<close>

definition instructions_check ::
  "'w service \<Rightarrow> workspace \<Rightarrow> 'w \<times> log_entry list \<Rightarrow> (exn + unit) \<times> 'w \<times> log_entry list" where
  "instructions_check svc ws st =
     (case st of (w, lg) \<Rightarrow>
        (case read_heartbeat_file ws of
           Inl e \<Rightarrow> (Inl e, w, lg)
         | Inr content \<Rightarrow>
             if is_heartbeat_empty content then (Inr (), w, lg @ [NoTasks])
             else
               (case on_heartbeat svc of
                  None \<Rightarrow> (Inr (), w, lg @ [CheckingForTasks])
                | Some cb \<Rightarrow>
                    (case cb (Call1 HEARTBEAT_PROMPT) w of
                       (Inr response, w1) \<Rightarrow>
                         (Inr (), w1, lg @ [CheckingForTasks, Replied response])
                     | (Inl e, w1) \<Rightarrow>
                         if is_Exception e
                           then (Inr (), w1, lg @ [CheckingForTasks, ExecutionFailed (str_of e)])
                         else (Inl e, w1, lg @ [CheckingForTasks])))))"

definition tick ::
  "'w service \<Rightarrow> workspace \<Rightarrow> 'w \<times> log_entry list \<Rightarrow> (exn + unit) \<times> 'w \<times> log_entry list" where
  "tick svc ws st =
     (case proactive_check svc ws st of
        (Inl e, st1) \<Rightarrow> (Inl e, st1)
      | (Inr x, st1) \<Rightarrow> instructions_check svc ws st1)"

subsection \<open>The manual trigger\<close>

definition trigger_now :: "'w service \<Rightarrow> 'w \<Rightarrow> (exn + pystr option) \<times> 'w" where
  "trigger_now svc w =
     (case on_heartbeat svc of
        None \<Rightarrow> (Inr None, w)
      | Some cb \<Rightarrow>
          (case cb (Call1 HEARTBEAT_PROMPT) w of
             (Inr response, w1) \<Rightarrow> (Inr (Some response), w1)
           | (Inl (TypeError m), w1) \<Rightarrow>
               (case cb (Call3 HEARTBEAT_PROMPT (u ''cli'') (u ''trigger'')) w1 of
                  (Inr response, w2) \<Rightarrow> (Inr (Some response), w2)
                | (Inl e, w2) \<Rightarrow> (Inl e, w2))
           | (Inl e, w1) \<Rightarrow> (Inl e, w1)))"

subsection \<open>start, stop and the loop\<close>

text \<open>
  The loop is a coroutine that the event loop runs as a task. The task is either
  created and not yet run, suspended at \<open>await asyncio.sleep\<close>, returned, or cancelled
  before it ever ran. \<open>Task.cancel()\<close> only marks the task: the event loop raises
  \<open>CancelledError\<close> at the suspension point the next time it runs the task.
\<close>

datatype pc = Created | AtSleep | Returned | Cancelled

record loop_task =
  pc :: pc
  must_cancel :: bool

type_synonym tasks = "nat \<Rightarrow> loop_task option"

text \<open>\<open>start\<close>; \<open>h\<close> is the task \<open>asyncio.create_task\<close> returns.\<close>

definition start ::
  "nat \<Rightarrow> 'w service \<Rightarrow> tasks \<Rightarrow> log_entry list \<Rightarrow> 'w service \<times> tasks \<times> log_entry list" where
  "start h svc ts lg =
     (if \<not> enabled svc then (svc, ts, lg @ [HeartbeatDisabled])
      else (svc\<lparr>running := True, timer_task := Some h\<rparr>,
            ts(h \<mapsto> \<lparr>pc = Created, must_cancel = False\<rparr>),
            lg @ [HeartbeatStarted (interval_s svc)]))"

definition cancel :: "nat \<Rightarrow> tasks \<Rightarrow> tasks" where
  "cancel h ts =
     (case ts h of
        None \<Rightarrow> ts
      | Some t \<Rightarrow> if pc t = Returned \<or> pc t = Cancelled then ts
                  else ts(h \<mapsto> t\<lparr>must_cancel := True\<rparr>))"

definition stop :: "'w service \<Rightarrow> tasks \<Rightarrow> 'w service \<times> tasks" where
  "stop svc ts =
     (case timer_task svc of
        None \<Rightarrow> (svc\<lparr>running := False\<rparr>, ts)
      | Some h \<Rightarrow> (svc\<lparr>running := False, timer_task := None\<rparr>, cancel h ts))"

text \<open>The test of \<open>while self._running\<close> followed by the suspension at the sleep.\<close>

definition loop_head :: "'w service \<Rightarrow> pc" where
  "loop_head svc = (if running svc then AtSleep else Returned)"

text \<open>How the sleep ends: the interval has passed, or \<open>CancelledError\<close> is raised there.\<close>

datatype wake = Elapsed | Interrupted

text \<open>
  One iteration of the loop from the sleep on: the rest of the \<open>try\<close> block, its two
  handlers, and the loop test.
\<close>

definition after_sleep ::
  "wake \<Rightarrow> 'w service \<Rightarrow> workspace \<Rightarrow> 'w \<times> log_entry list \<Rightarrow> pc \<times> 'w \<times> log_entry list" where
  "after_sleep wk svc ws st =
     (case wk of
        Interrupted \<Rightarrow> (Returned, st)
      | Elapsed \<Rightarrow>
          if running svc then
            (case tick svc ws st of
               (Inr x, st1) \<Rightarrow> (loop_head svc, st1)
             | (Inl CancelledError, st1) \<Rightarrow> (Returned, st1)
             | (Inl e, w1, lg1) \<Rightarrow> (loop_head svc, w1, lg1 @ [HeartbeatError (str_of e)]))
          else (loop_head svc, st))"

text \<open>The event loop runs the task once, up to its next suspension or its end.\<close>

definition run_task ::
  "'w service \<Rightarrow> workspace \<Rightarrow> loop_task \<Rightarrow> 'w \<times> log_entry list
     \<Rightarrow> loop_task \<times> 'w \<times> log_entry list" where
  "run_task svc ws t st =
     (case pc t of
        Created \<Rightarrow>
          if must_cancel t then (t\<lparr>pc := Cancelled, must_cancel := False\<rparr>, st)
          else (t\<lparr>pc := loop_head svc\<rparr>, st)
      | AtSleep \<Rightarrow>
          (case after_sleep (if must_cancel t then Interrupted else Elapsed) svc ws st of
             (p, st1) \<Rightarrow> (t\<lparr>pc := p, must_cancel := False\<rparr>, st1))
      | Returned \<Rightarrow> (t, st)
      | Cancelled \<Rightarrow> (t, st))"

section \<open>Vocabulary of the properties\<close>

text \<open>The lines of a stored file as the tools see them: read in text mode, then split.\<close>

definition file_lines :: "pystr \<Rightarrow> pystr list" where
  "file_lines stored = splitlines (universal_newlines stored)"


text \<open>A text without any line boundary.\<close>

definition break_free :: "pystr \<Rightarrow> bool" where
  "break_free l = (\<forall>c \<in> set l. \<not> is_linebreak c)"


text \<open>A callback that records its calls and answers as \<open>reply\<close> says.\<close>

definition recording :: "(call \<Rightarrow> exn + pystr) \<Rightarrow> call list callback" where
  "recording reply c w = (reply c, w @ [c])"

text \<open>
  A running service with the proactive check switched on and a recording callback, and a
  workspace whose files never fail.
\<close>

definition proactive_service :: "(call \<Rightarrow> exn + pystr) \<Rightarrow> call list service" where
  "proactive_service reply =
     \<lparr>on_heartbeat = Some (recording reply), interval_s = 1800, enabled = True,
      proactive_enabled = True, proactive_channel = u ''qq'', proactive_chat_id = u ''42'',
      running = True, timer_task = Some 0\<rparr>"

definition plain_workspace :: "pystr option \<Rightarrow> pystr option \<Rightarrow> workspace" where
  "plain_workspace todo hb =
     \<lparr>todo_file = todo, todo_faults = no_faults,
      heartbeat_file = hb, heartbeat_faults = no_faults\<rparr>"

section \<open>Facts about the string operations\<close>

lemma contains_iff: "contains sub s \<longleftrightarrow> (\<exists>p q. s = p @ sub @ q)"
proof (induction s)
  case Nil
  then show ?case by auto
next
  case (Cons c cs)
  have "(\<exists>p q. c # cs = p @ sub @ q) \<longleftrightarrow> prefix sub (c # cs) \<or> (\<exists>p q. cs = p @ sub @ q)"
    (is "?L \<longleftrightarrow> ?R")
  proof
    assume ?L
    then obtain p q where pq: "c # cs = p @ sub @ q" by blast
    show ?R
    proof (cases p)
      case Nil
      with pq show ?thesis by (auto simp: prefix_def)
    next
      case (Cons a p')
      with pq have "cs = p' @ sub @ q" by simp
      then show ?thesis by blast
    qed
  next
    assume ?R
    then show ?L
    proof
      assume "prefix sub (c # cs)"
      then obtain q where "c # cs = sub @ q" by (auto simp: prefix_def)
      then have "c # cs = [] @ sub @ q" by simp
      then show ?L by blast
    next
      assume "\<exists>p q. cs = p @ sub @ q"
      then obtain p q where "cs = p @ sub @ q" by blast
      then have "c # cs = (c # p) @ sub @ q" by simp
      then show ?L by blast
    qed
  qed
  with Cons show ?case by simp
qed

lemma contains_append_left: "contains sub s \<Longrightarrow> contains sub (p @ s)"
  by (induction p) auto





subsection \<open>The scan of CompleteTask\<close>

lemma complete_scan_None:
  "complete_scan tc ls = None \<longleftrightarrow> (\<forall>l \<in> set ls. \<not> (contains tc l \<and> contains pending_marker l))"
  by (induction ls) auto


subsection \<open>Lines and line boundaries\<close>

lemma break_free_simps [simp]:
  "break_free []"
  "break_free (c # l) = (\<not> is_linebreak c \<and> break_free l)"
  "break_free (l @ m) = (break_free l \<and> break_free m)"
  by (auto simp: break_free_def)

lemma splitlines_from_nobreak:
  "\<not> is_linebreak c \<Longrightarrow> splitlines_from cur (c # s) = splitlines_from (cur @ [c]) s"
  by (cases s) (auto simp: is_linebreak_def)

lemma splitlines_from_lf: "splitlines_from cur (10 # s) = cur # splitlines_from [] s"
  by (cases s) (simp_all add: is_linebreak_def)

lemma splitlines_from_append:
  "break_free l \<Longrightarrow> splitlines_from cur (l @ rest) = splitlines_from (cur @ l) rest"
proof (induction l arbitrary: cur)
  case Nil
  then show ?case by simp
next
  case (Cons c l)
  then show ?case by (simp add: splitlines_from_nobreak)
qed






lemma universal_newlines_id: "13 \<notin> set s \<Longrightarrow> universal_newlines s = s"
  by (induction s rule: universal_newlines.induct) simp_all

lemma break_free_no_cr: "break_free l \<Longrightarrow> 13 \<notin> set l"
  by (auto simp: break_free_def is_linebreak_def)



section \<open>Completing a task\<close>












section \<open>Adding a task\<close>

lemma universal_newlines_append:
  "a = [] \<or> last a \<noteq> 13 \<Longrightarrow>
   universal_newlines (a @ b) = universal_newlines a @ universal_newlines b"
proof (induction a rule: universal_newlines.induct)
  case 1
  then show ?case by simp
next
  case (2 c)
  then show ?case by (cases b) simp_all
next
  case (3 c d ds)
  then show ?case by (cases ds) (simp_all split: if_splits)
qed

lemma universal_newlines_last_lf:
  "c \<noteq> [] \<Longrightarrow> last c = 10 \<Longrightarrow>
   universal_newlines c \<noteq> [] \<and> last (universal_newlines c) = 10"
proof (induction c rule: universal_newlines.induct)
  case 1
  then show ?case by simp
next
  case (2 c)
  then show ?case by simp
next
  case (3 c d ds)
  then show ?case by (cases ds) (simp_all split: if_splits)
qed

lemma splitlines_from_terminated:
  "c \<noteq> [] \<Longrightarrow> last c = 10 \<Longrightarrow>
   splitlines_from cur (c @ rest) = splitlines_from cur c @ splitlines_from [] rest"
proof (induction cur c rule: splitlines_from.induct)
  case (1 cur)
  then show ?case by simp
next
  case (2 cur c)
  then show ?case by (simp add: splitlines_from_lf is_linebreak_def)
next
  case (3 cur c d ds)
  show ?case
  proof (cases ds)
    case Nil
    with 3 show ?thesis by (cases rest) (simp_all add: is_linebreak_def splitlines_from_lf)
  next
    case (Cons e es)
    with 3 show ?thesis by simp
  qed
qed

lemma break_free_universal_newlines: "break_free t \<Longrightarrow> universal_newlines t = t"
  by (rule universal_newlines_id) (rule break_free_no_cr)

lemma file_lines_append_line:
  assumes "c = [] \<or> last c = 10" and "break_free l"
  shows "file_lines (c @ l @ nl) = file_lines c @ [l]"
proof -
  have l: "splitlines_from [] (l @ nl) = [l]"
    using splitlines_from_append [OF assms(2), of "[]" nl] by (simp add: is_linebreak_def)
  have un: "universal_newlines (l @ nl) = l @ nl"
    using assms(2) by (intro universal_newlines_id) (auto dest: break_free_no_cr)
  show ?thesis
  proof (cases "c = []")
    case True
    with l un show ?thesis by (simp add: file_lines_def splitlines_def)
  next
    case False
    with assms(1) have last: "last c = 10" by simp
    with False have "universal_newlines (c @ l @ nl) = universal_newlines c @ l @ nl"
      using universal_newlines_append [of c "l @ nl"] un by simp
    moreover from False last have "universal_newlines c \<noteq> [] \<and> last (universal_newlines c) = 10"
      by (rule universal_newlines_last_lf)
    ultimately show ?thesis
      using splitlines_from_terminated [of "universal_newlines c" "[]" "l @ nl"] l
      by (simp add: file_lines_def splitlines_def)
  qed
qed

lemma break_free_task_line:
  assumes "priority \<in> {u ''LOW'', u ''NORMAL'', u ''HIGH''}" and "break_free task"
  shows "break_free (task_line priority task)"
proof -
  from assms(1) have "break_free priority"
    by (auto simp: is_linebreak_def)
  with assms(2) show ?thesis
    by (simp add: task_line_def is_linebreak_def)
qed

lemma utf8_encode_error_None:
  "utf8_encode_error s = None \<longleftrightarrow> (\<forall>c \<in> set s. \<not> is_surrogate c)"
proof (cases "dropWhile (\<lambda>c. \<not> is_surrogate c) s")
  case Nil
  then have "utf8_encode_error s = None"
    by (simp add: utf8_encode_error_def del: dropWhile_eq_Nil_conv)
  moreover from Nil have "\<forall>c \<in> set s. \<not> is_surrogate c" by simp
  ultimately show ?thesis by simp
next
  case (Cons c rest)
  then have "utf8_encode_error s \<noteq> None"
    by (simp add: utf8_encode_error_def Let_def)
  moreover from Cons have "dropWhile (\<lambda>c. \<not> is_surrogate c) s \<noteq> []" by simp
  then have "\<not> (\<forall>c \<in> set s. \<not> is_surrogate c)" by simp
  ultimately show ?thesis by blast
qed

lemma task_line_encodable:
  assumes "priority \<in> {u ''LOW'', u ''NORMAL'', u ''HIGH''}"
    and "\<forall>c \<in> set task. \<not> is_surrogate c"
  shows "utf8_encode_error (task_line priority task @ nl) = None"
proof -
  from assms(1) have "\<forall>c \<in> set priority. \<not> is_surrogate c"
    by (auto simp: is_surrogate_def)
  with assms(2) show ?thesis
    by (auto simp: utf8_encode_error_None task_line_def is_surrogate_def)
qed

lemma add_task_no_faults:
  assumes "utf8_encode_error (task_line priority task @ nl) = None"
  shows "add_task_execute no_faults task priority f =
     (Inr (u ''Task added: '' @ quote @ task @ quote @ u '' with priority '' @ priority),
      Some ((case f of None \<Rightarrow> u ''# TODO'' @ nl @ nl | Some c \<Rightarrow> c)
            @ task_line priority task @ nl))"
  using assms
  by (simp add: add_task_execute_def add_task_body_def except_Exception_def path_exists_def
      write_text_def append_text_def no_faults_def split: option.split)

text \<open>
  Where AddTask does add one line: for a priority among LOW, NORMAL and HIGH and a
  description without a line boundary and without a surrogate, when the file is absent,
  empty or ends with LF, AddTask succeeds, the file becomes the former content (the
  header \<open># TODO\<close> and a blank line when the file was absent) followed by the task line
  and LF, and the lines of the file are the former lines followed by the one line
  \<open>- [ ] [priority] description\<close>.
\<close>

lemma add_task_appends_line:
  assumes "priority \<in> {u ''LOW'', u ''NORMAL'', u ''HIGH''}"
    and "break_free task"
    and "\<forall>c \<in> set task. \<not> is_surrogate c"
    and "\<forall>c. f = Some c \<longrightarrow> c = [] \<or> last c = 10"
    and "base = (case f of None \<Rightarrow> u ''# TODO'' @ nl @ nl | Some c \<Rightarrow> c)"
  shows "\<exists>c'. add_task_execute no_faults task priority f
            = (Inr (u ''Task added: '' @ quote @ task @ quote @ u '' with priority ''
                    @ priority), Some c')
          \<and> c' = base @ task_line priority task @ nl
          \<and> file_lines c' = file_lines base @ [task_line priority task]"
proof -
  from assms(4,5) have "base = [] \<or> last base = 10" by (cases f) simp_all
  moreover from assms(1,2) have "break_free (task_line priority task)"
    by (rule break_free_task_line)
  ultimately have "file_lines (base @ task_line priority task @ nl)
      = file_lines base @ [task_line priority task]"
    by (rule file_lines_append_line)
  moreover from assms(1,3) have "utf8_encode_error (task_line priority task @ nl) = None"
    by (rule task_line_encodable)
  ultimately show ?thesis unfolding assms(5) by (simp add: add_task_no_faults)
qed

section \<open>The tools return text\<close>

lemma append_text_exn: "fst (append_text flt c f) = Inl e \<Longrightarrow> is_Exception e"
  by (auto simp: append_text_def Let_def split: option.splits)

lemma add_task_body_exn:
  assumes "fst (add_task_body flt task priority f) = Inl e"
  shows "is_Exception e"
proof (cases "path_exists flt f")
  case (Inl e1)
  with assms show ?thesis
    by (auto simp: add_task_body_def path_exists_def split: option.splits)
next
  case (Inr ex)
  show ?thesis
  proof (cases "if \<not> ex then write_text flt (u ''# TODO'' @ nl @ nl) f else Inr f")
    case (Inl e1)
    with Inr assms show ?thesis
      by (auto simp: add_task_body_def write_text_def split: option.splits if_splits)
  next
    case f1: (Inr f1)
    obtain r f2 where ap: "append_text flt (task_line priority task @ nl) f1 = (r, f2)"
      by (cases "append_text flt (task_line priority task @ nl) f1")
    with Inr f1 assms have "r = Inl e"
      by (cases r) (simp_all add: add_task_body_def)
    with ap have "fst (append_text flt (task_line priority task @ nl) f1) = Inl e" by simp
    then show ?thesis by (rule append_text_exn)
  qed
qed

lemma list_tasks_body_exn: "fst (list_tasks_body flt only_pending f) = Inl e \<Longrightarrow> is_Exception e"
  by (auto simp: list_tasks_body_def path_exists_def read_text_def Let_def
      split: option.splits sum.splits if_splits)

lemma complete_task_body_exn: "fst (complete_task_body flt tc f) = Inl e \<Longrightarrow> is_Exception e"
  by (auto simp: complete_task_body_def path_exists_def read_text_def write_text_def
      split: option.splits sum.splits if_splits)

lemma except_Exception_returns:
  assumes "\<And>e. fst r = Inl e \<Longrightarrow> is_Exception e"
  shows "\<exists>s. fst (except_Exception msg r) = Inr s"
proof (cases r)
  case (Pair a f)
  show ?thesis
  proof (cases a)
    case (Inl e)
    with Pair assms [of e] show ?thesis by (simp add: except_Exception_def)
  next
    case (Inr s)
    with Pair show ?thesis by (simp add: except_Exception_def)
  qed
qed

text \<open>
  C8. Whatever the arguments, the state of the file and the faults of the file
  operations, each of AddTask, ListTasks and CompleteTask returns a string: none of them
  raises.
\<close>

theorem todo_tools_never_raise:
  "(\<exists>s. fst (add_task_execute flt task priority f) = Inr s)
   \<and> (\<exists>s. fst (list_tasks_execute flt only_pending f) = Inr s)
   \<and> (\<exists>s. fst (complete_task_execute flt task_content f) = Inr s)"
  unfolding add_task_execute_def list_tasks_execute_def complete_task_execute_def
  by (intro conjI except_Exception_returns add_task_body_exn list_tasks_body_exn
      complete_task_body_exn)

section \<open>The test for an empty HEARTBEAT.md\<close>

lemma heartbeat_scan_iff:
  "heartbeat_scan ls \<longleftrightarrow>
     (\<forall>l \<in> set ls. strip l = [] \<or> startswith (strip l) (u ''#'')
        \<or> startswith (strip l) (u ''<!--'') \<or> strip l \<in> skip_patterns)"
  by (induction ls) (simp_all add: Let_def)

text \<open>
  C3. \<open>_is_heartbeat_empty\<close> answers \<open>True\<close> exactly when the content is \<open>None\<close>, or the
  empty string, or every line of it (split at LF), once stripped, is empty, starts with
  \<open>#\<close>, starts with \<open><!--\<close>, or is one of \<open>- [ ]\<close>, \<open>* [ ]\<close>, \<open>- [x]\<close>, \<open>* [x]\<close>.
\<close>

theorem is_heartbeat_empty_iff:
  "is_heartbeat_empty content \<longleftrightarrow>
     (content = None \<or> content = Some []
      \<or> (\<exists>c. content = Some c
            \<and> (\<forall>l \<in> set (split_on 10 c).
                  strip l = [] \<or> startswith (strip l) (u ''#'')
                  \<or> startswith (strip l) (u ''<!--'')
                  \<or> strip l \<in> {u ''- [ ]'', u ''* [ ]'', u ''- [x]'', u ''* [x]''})))"
proof (cases content)
  case None
  then show ?thesis by (simp add: is_heartbeat_empty_def)
next
  case (Some c)
  then show ?thesis
    unfolding is_heartbeat_empty_def heartbeat_scan_iff skip_patterns_def
    by (cases "c = []") simp_all
qed

text \<open>
  The characterisation at three contents: headings, blank lines, a comment and bare
  checkboxes are empty; a task with a text is not; no file is empty.
\<close>

theorem is_heartbeat_empty_witness:
  "is_heartbeat_empty (Some (u ''# Notes\<newline>\<newline>  <!-- later -->\<newline>- [ ]\<newline>* [x]''))
   \<and> \<not> is_heartbeat_empty (Some (u ''# Notes\<newline>- [ ] buy milk\<newline>''))
   \<and> is_heartbeat_empty None"
  using is_heartbeat_empty_iff [of "Some (u ''# Notes\<newline>\<newline>  <!-- later -->\<newline>- [ ]\<newline>* [x]'')"]
    is_heartbeat_empty_iff [of "Some (u ''# Notes\<newline>- [ ] buy milk\<newline>'')"]
    is_heartbeat_empty_iff [of None]
  by (simp add: strip_def is_space_def startswith_def)

subsection \<open>Splitting at LF loses nothing\<close>

lemma join_split_on: "join [sep] (split_on sep s) = s"
proof (induction s)
  case Nil
  then show ?case by simp
next
  case (Cons c cs)
  then show ?case
    by (cases "split_on sep cs"; cases "tl (split_on sep cs)") (auto split: list.splits)
qed

lemma split_on_no_sep: "l \<in> set (split_on sep s) \<Longrightarrow> sep \<notin> set l"
  by (induction s arbitrary: l) (auto split: if_splits list.splits)

section \<open>The manual trigger\<close>

text \<open>
  C7. \<open>trigger_now\<close> returns nothing when no callback is bound. Otherwise it calls the
  callback with the heartbeat prompt alone and returns its reply; when that call raises
  \<open>TypeError\<close> it calls the callback again with the prompt and the placeholders \<open>cli\<close> and
  \<open>trigger\<close> and returns that reply. The proactive path of the tick has the same retry
  with the two shapes in the other order: three arguments first, the prompt alone after
  a \<open>TypeError\<close>.
\<close>

theorem trigger_now_contract:
  "(on_heartbeat svc = None \<longrightarrow> trigger_now svc w = (Inr None, w))
   \<and> (on_heartbeat svc = Some cb \<and> cb (Call1 HEARTBEAT_PROMPT) w = (Inr r, w1)
        \<longrightarrow> trigger_now svc w = (Inr (Some r), w1))
   \<and> (on_heartbeat svc = Some cb \<and> cb (Call1 HEARTBEAT_PROMPT) w = (Inl (TypeError m), w1)
        \<and> cb (Call3 HEARTBEAT_PROMPT (u ''cli'') (u ''trigger'')) w1 = (Inr r, w2)
        \<longrightarrow> trigger_now svc w = (Inr (Some r), w2))
   \<and> (cb (Call3 p ch cid) w = (Inl (TypeError m), w1) \<and> cb (Call1 p) w1 = (Inr r, w2)
        \<longrightarrow> proactive_call cb p ch cid (w, lg)
            = (Inr (), w2, lg @ [ProactiveCompletedLegacy (summary r)]))"
  by (simp add: trigger_now_def proactive_call_def)

section \<open>Evaluations and instances\<close>

lemmas io_defs = path_exists_def read_text_def write_text_def append_text_def no_faults_def
  except_Exception_def

lemmas line_defs = file_lines_def splitlines_def is_linebreak_def

text \<open>
  C1. On the file \<open># TODO\<close>, blank line, \<open>- [ ] document the - [ ] syntax\<close>, with
  \<open>task_content = document\<close>, exactly one pending line contains the task content.
  CompleteTask rewrites the marker of that line and also the \<open>- [ ]\<close> inside its
  description, so the rest of the text of the line is not preserved: \<open>str.replace\<close>
  replaces every occurrence.
\<close>

theorem complete_task_rewrites_description:
  "complete_task_execute no_faults (u ''document'')
     (Some (u ''# TODO\<newline>\<newline>- [ ] document the - [ ] syntax\<newline>''))
   = (Inr (u ''Task marked as completed: '' @ quote @ u ''document'' @ quote),
      Some (u ''# TODO\<newline>\<newline>- [x] document the - [x] syntax''))"
  by (simp add: complete_task_execute_def complete_task_body_def io_defs splitlines_def
      is_linebreak_def pending_marker_def done_marker_def)



lemmas encode_defs = utf8_encode_error_def is_surrogate_def hex4_def hex_digit_def
  decimal.simps

text \<open>
  C5. AddTask on the file that the tools themselves leave behind. In a fresh workspace
  AddTask adds the task \<open>a\<close>, CompleteTask completes it and writes the lines joined by
  LF, without a final LF; AddTask then adds the task \<open>b\<close> and reports success, but the
  text it appends lands on the last line: the file still has three lines, the completed
  task \<open>a\<close> has lost its line to \<open>- [x] [NORMAL] a- [ ] [NORMAL] b\<close>, and no line
  \<open>- [ ] [NORMAL] b\<close> has been added.
\<close>

theorem add_task_after_complete_task_glues_lines:
  "add_task_execute no_faults (u ''a'') (u ''NORMAL'') None
     = (Inr (u ''Task added: '' @ quote @ u ''a'' @ quote @ u '' with priority NORMAL''),
        Some (u ''# TODO\<newline>\<newline>- [ ] [NORMAL] a\<newline>''))
   \<and> complete_task_execute no_faults (u ''a'')
       (Some (u ''# TODO\<newline>\<newline>- [ ] [NORMAL] a\<newline>''))
     = (Inr (u ''Task marked as completed: '' @ quote @ u ''a'' @ quote),
        Some (u ''# TODO\<newline>\<newline>- [x] [NORMAL] a''))
   \<and> add_task_execute no_faults (u ''b'') (u ''NORMAL'')
       (Some (u ''# TODO\<newline>\<newline>- [x] [NORMAL] a''))
     = (Inr (u ''Task added: '' @ quote @ u ''b'' @ quote @ u '' with priority NORMAL''),
        Some (u ''# TODO\<newline>\<newline>- [x] [NORMAL] a- [ ] [NORMAL] b\<newline>''))
   \<and> file_lines (u ''# TODO\<newline>\<newline>- [x] [NORMAL] a'')
     = [u ''# TODO'', [], u ''- [x] [NORMAL] a'']
   \<and> file_lines (u ''# TODO\<newline>\<newline>- [x] [NORMAL] a- [ ] [NORMAL] b\<newline>'')
     = [u ''# TODO'', [], u ''- [x] [NORMAL] a- [ ] [NORMAL] b'']"
  by (simp add: add_task_execute_def add_task_body_def complete_task_execute_def
      complete_task_body_def io_defs encode_defs task_line_def line_defs
      pending_marker_def done_marker_def)

text \<open>
  Two more inputs on which AddTask does not add one line. A description that contains
  LF adds two lines. A description that holds a surrogate cannot be encoded: AddTask
  returns the text of the error and, in a fresh workspace, leaves the header alone.
\<close>

lemma add_task_description_with_newline:
  "snd (add_task_execute no_faults (u ''a\<newline>b'') (u ''NORMAL'') None)
     = Some (u ''# TODO\<newline>\<newline>- [ ] [NORMAL] a\<newline>b\<newline>'')
   \<and> file_lines (u ''# TODO\<newline>\<newline>- [ ] [NORMAL] a\<newline>b\<newline>'')
     = [u ''# TODO'', [], u ''- [ ] [NORMAL] a'', u ''b'']"
  by (simp add: add_task_execute_def add_task_body_def io_defs encode_defs task_line_def
      line_defs)

lemma add_task_description_with_surrogate:
  "add_task_execute no_faults [55296] (u ''NORMAL'') None
     = (Inr (u ''Error adding task: '' @ quote @ u ''utf-8'' @ quote @ u '' codec can'' @ quote
             @ u ''t encode character '' @ quote @ [92] @ u ''ud800'' @ quote
             @ u '' in position 15: surrogates not allowed''),
        Some (u ''# TODO\<newline>\<newline>''))"
  by (simp add: add_task_execute_def add_task_body_def io_defs encode_defs task_line_def)

text \<open>
  The first task of a workspace: the file is created with its header and has three lines.
\<close>

lemma add_task_first_task:
  "\<exists>c'. add_task_execute no_faults (u ''buy milk'') (u ''HIGH'') None
          = (Inr (u ''Task added: '' @ quote @ u ''buy milk'' @ quote
                  @ u '' with priority HIGH''), Some c')
        \<and> c' = u ''# TODO\<newline>\<newline>- [ ] [HIGH] buy milk\<newline>''
        \<and> file_lines c' = [u ''# TODO'', [], u ''- [ ] [HIGH] buy milk'']"
proof -
  have h1: "u ''HIGH'' \<in> {u ''LOW'', u ''NORMAL'', u ''HIGH''}" by simp
  have h2: "break_free (u ''buy milk'')" by (simp add: break_free_def is_linebreak_def)
  have h3: "\<forall>c \<in> set (u ''buy milk''). \<not> is_surrogate c" by (simp add: is_surrogate_def)
  have h4: "\<forall>c. (None :: pystr option) = Some c \<longrightarrow> c = [] \<or> last c = 10" by simp
  from add_task_appends_line [OF h1 h2 h3 h4 refl] show ?thesis
    by (simp add: task_line_def line_defs)
qed

text \<open>
  C2. With a pending task in TODO.md, instructions in HEARTBEAT.md and a callback that
  raises an exception other than \<open>TypeError\<close>, the tick ends with that exception right
  after the proactive call: the callback is called once, step 2 never reads HEARTBEAT.md
  and the loop logs a heartbeat error. With a callback that replies, the same tick goes
  on to step 2 and calls the callback with the heartbeat prompt.
\<close>

theorem tick_stops_at_proactive_failure:
  "tick (proactive_service (\<lambda>c. Inl (Error (u ''boom''))))
        (plain_workspace (Some (u ''- [ ] a'')) (Some (u ''water the plants''))) ([], [])
   = (Inl (Error (u ''boom'')),
      [Call3 (proactive_prompt (u ''- [ ] a'')) (u ''qq'') (u ''42'')],
      [ProactivePending])
   \<and> after_sleep Elapsed (proactive_service (\<lambda>c. Inl (Error (u ''boom''))))
        (plain_workspace (Some (u ''- [ ] a'')) (Some (u ''water the plants''))) ([], [])
   = (AtSleep,
      [Call3 (proactive_prompt (u ''- [ ] a'')) (u ''qq'') (u ''42'')],
      [ProactivePending, HeartbeatError (u ''boom'')])
   \<and> tick (proactive_service (\<lambda>c. Inr (u ''done'')))
        (plain_workspace (Some (u ''- [ ] a'')) (Some (u ''water the plants''))) ([], [])
   = (Inr (),
      [Call3 (proactive_prompt (u ''- [ ] a'')) (u ''qq'') (u ''42''), Call1 HEARTBEAT_PROMPT],
      [ProactivePending, ProactiveCompleted (u ''done''), CheckingForTasks,
       Replied (u ''done'')])"
  by (simp add: tick_def after_sleep_def loop_head_def proactive_check_def proactive_call_def
      instructions_check_def read_heartbeat_file_def proactive_service_def
      plain_workspace_def recording_def io_defs pending_marker_def summary_def
      is_heartbeat_empty_def strip_def is_space_def startswith_def skip_patterns_def)

section \<open>Stopping the service\<close>

text \<open>
  C9. When \<open>stop\<close> is called while the loop is suspended at its sleep, \<open>stop\<close> returns
  with the running flag false and the handle of the task cleared, and the task is
  marked for cancellation. When the event loop next runs the task, the loop returns and
  neither the world nor the log has changed: no tick has run. The same holds however
  the sleep ends, also when the interval had passed before the cancellation arrived.
\<close>

theorem stop_during_sleep:
  assumes "timer_task svc = Some h" and "ts h = Some t" and "pc t = AtSleep"
    and "stop svc ts = (svc', ts')"
  shows "running svc' = False \<and> timer_task svc' = None
    \<and> (\<exists>t'. ts' h = Some t' \<and> pc t' = AtSleep \<and> must_cancel t'
          \<and> run_task svc' ws t' st = (t'\<lparr>pc := Returned, must_cancel := False\<rparr>, st))
    \<and> (\<forall>wk. after_sleep wk svc' ws st = (Returned, st))"
proof -
  from assms(1,4) have svc': "svc' = svc\<lparr>running := False, timer_task := None\<rparr>"
    and ts': "ts' = cancel h ts"
    by (simp_all add: stop_def)
  from assms(2,3) ts' have t': "ts' h = Some (t\<lparr>must_cancel := True\<rparr>)"
    by (simp add: cancel_def)
  have after: "after_sleep wk svc' ws st = (Returned, st)" for wk
    by (cases wk) (simp_all add: after_sleep_def svc' loop_head_def)
  have "run_task svc' ws (t\<lparr>must_cancel := True\<rparr>) st
      = (t\<lparr>must_cancel := True\<rparr>\<lparr>pc := Returned, must_cancel := False\<rparr>, st)"
    using assms(3) by (simp add: run_task_def after)
  with t' assms(3) after svc' show ?thesis by simp
qed

text \<open>
  A running service with a pending task and instructions, stopped during its sleep.
\<close>

theorem stop_during_sleep_witness:
  "after_sleep Elapsed
     (fst (stop (proactive_service (\<lambda>c. Inr (u ''done'')))
             (Map.empty(0 \<mapsto> \<lparr>pc = AtSleep, must_cancel = False\<rparr>))))
     (plain_workspace (Some (u ''- [ ] a'')) (Some (u ''water the plants''))) ([], [])
   = (Returned, [], [])
   \<and> running (fst (stop (proactive_service (\<lambda>c. Inr (u ''done'')))
                     (Map.empty(0 \<mapsto> \<lparr>pc = AtSleep, must_cancel = False\<rparr>)))) = False"
proof -
  define svc where "svc = proactive_service (\<lambda>c. Inr (u ''done''))"
  define ts :: tasks where "ts = Map.empty(0 \<mapsto> \<lparr>pc = AtSleep, must_cancel = False\<rparr>)"
  have h1: "timer_task svc = Some 0" by (simp add: svc_def proactive_service_def)
  have h2: "ts 0 = Some \<lparr>pc = AtSleep, must_cancel = False\<rparr>" by (simp add: ts_def)
  have h3: "pc \<lparr>pc = AtSleep, must_cancel = False\<rparr> = AtSleep" by simp
  have h4: "stop svc ts = (fst (stop svc ts), snd (stop svc ts))" by simp
  from stop_during_sleep [OF h1 h2 h3 h4] show ?thesis unfolding svc_def ts_def by blast
qed

section \<open>What counts as pending\<close>

lemma contains_skip_prefix:
  "45 \<notin> set p \<Longrightarrow> contains pending_marker (p @ rest) \<longleftrightarrow> contains pending_marker rest"
proof (induction p)
  case Nil
  then show ?case by simp
next
  case (Cons a p)
  then have "a \<noteq> 45" by auto
  then have "\<not> prefix pending_marker (a # p @ rest)" by (simp add: pending_marker_def)
  moreover have "(a # p) @ rest = a # (p @ rest)" by simp
  ultimately show ?case using Cons by (cases "p @ rest") (simp_all)
qed

lemma proactive_call_log:
  "\<exists>more. snd (snd (proactive_call cb p ch cid (w, lg))) = lg @ more"
proof (cases "cb (Call3 p ch cid) w")
  case (Pair r w1)
  show ?thesis
  proof (cases r)
    case (Inr response)
    with Pair show ?thesis by (simp add: proactive_call_def)
  next
    case (Inl e)
    show ?thesis
    proof (cases e)
      case (TypeError m)
      show ?thesis
      proof (cases "cb (Call1 p) w1")
        case (Pair r2 w2)
        with TypeError Inl \<open>cb (Call3 p ch cid) w = (r, w1)\<close> show ?thesis
          by (cases r2) (simp_all add: proactive_call_def)
      qed
    next
      case (Error m)
      with Inl Pair show ?thesis by (simp add: proactive_call_def)
    next
      case CancelledError
      with Inl Pair show ?thesis by (simp add: proactive_call_def)
    qed
  qed
qed

lemma list_tasks_no_faults:
  "fst (list_tasks_execute no_faults True (Some c))
     = Inr (if filter (contains pending_marker) (file_lines c) = []
            then u ''No pending tasks found.''
            else u ''Pending tasks:'' @ nl
                 @ join nl (filter (contains pending_marker) (file_lines c)))"
  by (simp add: list_tasks_execute_def list_tasks_body_def io_defs file_lines_def Let_def)

text \<open>
  C10, amended. The three operations decide that something is pending by the substring
  \<open>- [ ]\<close> alone: ListTasks with \<open>only_pending\<close> returns exactly the lines that contain
  it; CompleteTask finds a line exactly when some line contains both the task content
  and \<open>- [ ]\<close>; the proactive scan wakes the agent exactly when the content of TODO.md
  contains it. A line written with the \<open>*\<close> bullet is pending exactly when \<open>- [ ]\<close>
  occurs in the text after its checkbox.
\<close>

theorem pending_is_marker_substring:
  "fst (list_tasks_execute no_faults True (Some c))
     = Inr (if filter (contains pending_marker) (file_lines c) = []
            then u ''No pending tasks found.''
            else u ''Pending tasks:'' @ nl
                 @ join nl (filter (contains pending_marker) (file_lines c)))
   \<and> (complete_scan tc ls \<noteq> None
        \<longleftrightarrow> (\<exists>l \<in> set ls. contains tc l \<and> contains pending_marker l))
   \<and> (on_heartbeat svc = Some cb \<and> proactive_enabled svc \<and> proactive_chat_id svc \<noteq> []
        \<and> todo_file ws = Some stored \<and> todo_faults ws = no_faults
        \<longrightarrow> (ProactivePending \<in> set (snd (snd (proactive_check svc ws (w, []))))
             \<longleftrightarrow> contains pending_marker (universal_newlines stored)))
   \<and> (contains pending_marker line \<longleftrightarrow> (\<exists>p q. line = p @ u ''- [ ]'' @ q))
   \<and> (contains pending_marker (u ''* [ ]'' @ rest) \<longleftrightarrow> contains pending_marker rest)"
proof (intro conjI impI)
  show "fst (list_tasks_execute no_faults True (Some c))
     = Inr (if filter (contains pending_marker) (file_lines c) = []
            then u ''No pending tasks found.''
            else u ''Pending tasks:'' @ nl
                 @ join nl (filter (contains pending_marker) (file_lines c)))"
    by (rule list_tasks_no_faults)
  show "complete_scan tc ls \<noteq> None
        \<longleftrightarrow> (\<exists>l \<in> set ls. contains tc l \<and> contains pending_marker l)"
    by (simp add: complete_scan_None)
  show "contains pending_marker line \<longleftrightarrow> (\<exists>p q. line = p @ u ''- [ ]'' @ q)"
    using contains_iff [of pending_marker line] by (simp add: pending_marker_def)
  show "contains pending_marker (u ''* [ ]'' @ rest) \<longleftrightarrow> contains pending_marker rest"
    by (rule contains_skip_prefix) simp
next
  assume a: "on_heartbeat svc = Some cb \<and> proactive_enabled svc \<and> proactive_chat_id svc \<noteq> []
        \<and> todo_file ws = Some stored \<and> todo_faults ws = no_faults"
  show "ProactivePending \<in> set (snd (snd (proactive_check svc ws (w, []))))
             \<longleftrightarrow> contains pending_marker (universal_newlines stored)"
  proof (cases "contains pending_marker (universal_newlines stored)")
    case True
    with a have "proactive_check svc ws (w, [])
        = proactive_call cb (proactive_prompt (universal_newlines stored)) (proactive_channel svc)
            (proactive_chat_id svc) (w, [ProactivePending])"
      by (simp add: proactive_check_def io_defs)
    moreover from proactive_call_log [of cb "proactive_prompt (universal_newlines stored)"
        "proactive_channel svc" "proactive_chat_id svc" w "[ProactivePending]"]
    obtain more where "snd (snd (proactive_call cb
            (proactive_prompt (universal_newlines stored)) (proactive_channel svc)
            (proactive_chat_id svc) (w, [ProactivePending]))) = [ProactivePending] @ more" ..
    ultimately have "ProactivePending \<in> set (snd (snd (proactive_check svc ws (w, []))))"
      by simp
    with True show ?thesis by simp
  next
    case False
    with a show ?thesis by (simp add: proactive_check_def io_defs)
  qed
qed

text \<open>
  A checklist line with the \<open>*\<close> bullet whose description contains \<open>- [ ]\<close> is listed
  as pending by ListTasks and is accepted by CompleteTask, which rewrites the
  description.
\<close>

theorem star_bullet_line_listed_as_pending:
  "fst (list_tasks_execute no_faults True (Some (u ''* [ ] replace - [ ] by boxes\<newline>'')))
     = Inr (u ''Pending tasks:\<newline>* [ ] replace - [ ] by boxes'')
   \<and> complete_task_execute no_faults (u ''replace'')
       (Some (u ''* [ ] replace - [ ] by boxes\<newline>''))
     = (Inr (u ''Task marked as completed: '' @ quote @ u ''replace'' @ quote),
        Some (u ''* [ ] replace - [x] by boxes''))"
  by (simp add: list_tasks_execute_def list_tasks_body_def complete_task_execute_def
      complete_task_body_def io_defs splitlines_def is_linebreak_def pending_marker_def
      done_marker_def)

text \<open>
  The proactive scan on a file with a \<open>-\<close> checkbox and on a file with a \<open>*\<close> checkbox.
\<close>

theorem pending_is_marker_substring_witness:
  "ProactivePending \<in> set (snd (snd (proactive_check
       (proactive_service (\<lambda>c. Inr (u ''done'')))
       (plain_workspace (Some (u ''# TODO\<newline>- [ ] a\<newline>'')) None) ([], []))))
   \<and> ProactivePending \<notin> set (snd (snd (proactive_check
       (proactive_service (\<lambda>c. Inr (u ''done'')))
       (plain_workspace (Some (u ''# TODO\<newline>* [ ] a\<newline>'')) None) ([], []))))"
proof -
  define svc where "svc = proactive_service (\<lambda>c. Inr (u ''done''))"
  define ws1 where "ws1 = plain_workspace (Some (u ''# TODO\<newline>- [ ] a\<newline>'')) None"
  define ws2 where "ws2 = plain_workspace (Some (u ''# TODO\<newline>* [ ] a\<newline>'')) None"
  have h: "on_heartbeat svc = Some (recording (\<lambda>c. Inr (u ''done''))) \<and> proactive_enabled svc
      \<and> proactive_chat_id svc \<noteq> []"
    by (simp add: svc_def proactive_service_def)
  have w1: "todo_file ws1 = Some (u ''# TODO\<newline>- [ ] a\<newline>'') \<and> todo_faults ws1 = no_faults"
    by (simp add: ws1_def plain_workspace_def)
  have w2: "todo_file ws2 = Some (u ''# TODO\<newline>* [ ] a\<newline>'') \<and> todo_faults ws2 = no_faults"
    by (simp add: ws2_def plain_workspace_def)
  have c1: "contains pending_marker (universal_newlines (u ''# TODO\<newline>- [ ] a\<newline>''))"
    by (simp add: pending_marker_def)
  have c2: "\<not> contains pending_marker (universal_newlines (u ''# TODO\<newline>* [ ] a\<newline>''))"
    by (simp add: pending_marker_def)
  from pending_is_marker_substring [of _ _ _ svc _ ws1 "u ''# TODO\<newline>- [ ] a\<newline>''" "[]"] h w1 c1
  have "ProactivePending \<in> set (snd (snd (proactive_check svc ws1 ([], []))))" by blast
  moreover
  from pending_is_marker_substring [of _ _ _ svc _ ws2 "u ''# TODO\<newline>* [ ] a\<newline>''" "[]"] h w2 c2
  have "ProactivePending \<notin> set (snd (snd (proactive_check svc ws2 ([], []))))" by blast
  ultimately show ?thesis unfolding svc_def ws1_def ws2_def by blast
qed

text \<open>
  The manual trigger with a callback that takes three arguments only.
\<close>

theorem trigger_now_contract_witness:
  "trigger_now (proactive_service
       (\<lambda>c. case c of Call1 p \<Rightarrow> Inl (TypeError (u ''missing 2 required positional arguments''))
                    | Call3 p ch cid \<Rightarrow> Inr (u ''HEARTBEAT_OK''))) []
   = (Inr (Some (u ''HEARTBEAT_OK'')),
      [Call1 HEARTBEAT_PROMPT, Call3 HEARTBEAT_PROMPT (u ''cli'') (u ''trigger'')])"
proof -
  define reply :: "call \<Rightarrow> exn + pystr" where
    "reply = (\<lambda>c. case c of Call1 p \<Rightarrow> Inl (TypeError (u ''missing 2 required positional arguments''))
                    | Call3 p ch cid \<Rightarrow> Inr (u ''HEARTBEAT_OK''))"
  have h1: "on_heartbeat (proactive_service reply) = Some (recording reply)"
    by (simp add: proactive_service_def)
  have h2: "recording reply (Call1 HEARTBEAT_PROMPT) []
      = (Inl (TypeError (u ''missing 2 required positional arguments'')), [Call1 HEARTBEAT_PROMPT])"
    by (simp add: recording_def reply_def)
  have h3: "recording reply (Call3 HEARTBEAT_PROMPT (u ''cli'') (u ''trigger''))
        [Call1 HEARTBEAT_PROMPT]
      = (Inr (u ''HEARTBEAT_OK''),
         [Call1 HEARTBEAT_PROMPT, Call3 HEARTBEAT_PROMPT (u ''cli'') (u ''trigger'')])"
    by (simp add: recording_def reply_def)
  from trigger_now_contract [of "proactive_service reply" "[]" "recording reply"] h1 h2 h3
  show ?thesis unfolding reply_def by blast
qed

text \<open>
  The three tools on a file whose operations all fail.
\<close>

theorem todo_tools_never_raise_witness:
  "(\<exists>s. fst (add_task_execute (\<lambda>op. Some (u ''disk full'')) (u ''a'') (u ''LOW'') None) = Inr s)
   \<and> (\<exists>s. fst (list_tasks_execute (\<lambda>op. Some (u ''disk full'')) True None) = Inr s)
   \<and> (\<exists>s. fst (complete_task_execute (\<lambda>op. Some (u ''disk full'')) (u ''a'') None) = Inr s)"
  by (rule todo_tools_never_raise)

text \<open>
  What the tools return when an operation on the file fails.
\<close>

lemma todo_tools_report_faults:
  "fst (add_task_execute (\<lambda>op. if op = Append then Some (u ''disk full'') else None)
          (u ''a'') (u ''LOW'') None)
     = Inr (u ''Error adding task: disk full'')
   \<and> fst (list_tasks_execute (\<lambda>op. if op = ReadText then Some (u ''bad byte'') else None)
          True (Some []))
     = Inr (u ''Error listing tasks: bad byte'')
   \<and> fst (complete_task_execute (\<lambda>op. if op = WriteText then Some (u ''read-only'') else None)
          (u ''a'') (Some (u ''- [ ] a'')))
     = Inr (u ''Error completing task: read-only'')"
  by (simp add: add_task_execute_def add_task_body_def list_tasks_execute_def
      list_tasks_body_def complete_task_execute_def complete_task_body_def
      path_exists_def read_text_def write_text_def append_text_def except_Exception_def
      splitlines_def is_linebreak_def pending_marker_def done_marker_def)

end
